theory Spec2Isabelle
  imports Complex_Main
begin

section \<open>Data model of the recurring expense detector\<close>

text \<open>
  The embedding follows \<^verbatim>\<open>SpendingTracker/Services/RecurringExpenseDetector.swift\<close>.

  \<^item> \<^verbatim>\<open>Double\<close> is modelled by \<open>real\<close>, without rounding; the one reachable division
    by zero (by a zero mean interval) is written out in \<open>determineFrequency\<close> with the
    result IEEE arithmetic gives.
  \<^item> \<^verbatim>\<open>Date\<close> is the number of seconds since the reference date, \<^verbatim>\<open>TimeInterval\<close>
    a number of seconds.
  \<^item> \<^verbatim>\<open>UUID\<close> values are natural numbers. Each call of \<^verbatim>\<open>UUID()\<close> draws a new
    value; the drawn values are parameters of the operation that draws them.
  \<^item> \<^verbatim>\<open>Date()\<close> (the current time) is the parameter \<open>now\<close>.
  \<^item> \<^verbatim>\<open>Calendar.current.date(byAdding:value:to:)\<close> belongs to Foundation; it is the
    parameter \<open>cal\<close>, with the optional result the Swift signature has.
  \<^item> A Swift \<^verbatim>\<open>Character\<close> is modelled by a \<open>char\<close>, a \<^verbatim>\<open>String\<close> by a \<open>string\<close>.
  \<^item> A range \<^verbatim>\<open>a...b\<close> or \<^verbatim>\<open>a..<b\<close> whose lower bound exceeds its upper bound stops
    the program; this is the error value \<open>InvalidRange\<close>.
\<close>

type_synonym uuid = nat
type_synonym Date = real
type_synonym TimeInterval = real

text \<open>
  \<^verbatim>\<open>Expense\<close> is the Core Data entity; the detector reads the attributes below, all
  optional but the amount and the flag (\<^verbatim>\<open>expense.title ?? ""\<close>,
  \<^verbatim>\<open>expense.category ?? "Other"\<close>, \<^verbatim>\<open>$0.date ?? Date()\<close>).
\<close>

record Expense =
  e_id :: "uuid option"
  e_amount :: real
  e_title :: "string option"
  e_category :: "string option"
  e_date :: "Date option"
  e_isRecurring :: bool

datatype RecurringFrequency = daily | weekly | biweekly | monthly | quarterly | yearly | unknown

record RecurringPattern =
  p_id :: uuid
  p_title :: string
  p_category :: string
  p_averageAmount :: real
  p_frequency :: RecurringFrequency
  p_confidence :: real
  p_lastOccurrence :: Date
  p_nextPredicted :: "Date option"

record RecurringSuggestion =
  s_id :: uuid
  s_expense :: Expense
  s_pattern :: RecurringPattern
  s_confidence :: real

text \<open>The two published properties of the class \<^verbatim>\<open>RecurringExpenseDetector\<close>.\<close>

record Detector =
  detectedPatterns :: "RecurringPattern list"
  suggestions :: "RecurringSuggestion list"

datatype CalendarComponent = day | month | year

type_synonym Calendar = "CalendarComponent \<Rightarrow> int \<Rightarrow> Date \<Rightarrow> Date option"

datatype trap = InvalidRange

section \<open>Similarity\<close>

subsection \<open>Edit distance\<close>

text \<open>
  The table \<^verbatim>\<open>dp\<close> is a list of rows. \<open>dpSet dp i j v\<close> is \<^verbatim>\<open>dp[i][j] = v\<close>; every
  index the loops use is inside the table (lemma \<open>fillTable_inv\<close> below).
\<close>

definition dpSet :: "nat list list \<Rightarrow> nat \<Rightarrow> nat \<Rightarrow> nat \<Rightarrow> nat list list" where
  "dpSet dp i j v = dp[i := (dp ! i)[j := v]]"

definition dpGet :: "nat list list \<Rightarrow> nat \<Rightarrow> nat \<Rightarrow> nat" where
  "dpGet dp i j = dp ! i ! j"

text \<open>\<^verbatim>\<open>for i in 0...m { dp[i][0] = i }\<close>\<close>

definition initColumn :: "nat \<Rightarrow> nat list list \<Rightarrow> nat list list" where
  "initColumn m dp = fold (\<lambda>i dp. dpSet dp i 0 i) [0..<Suc m] dp"

text \<open>\<^verbatim>\<open>for j in 0...n { dp[0][j] = j }\<close>\<close>

definition initRow :: "nat \<Rightarrow> nat list list \<Rightarrow> nat list list" where
  "initRow n dp = fold (\<lambda>j dp. dpSet dp 0 j j) [0..<Suc n] dp"

text \<open>The body of the inner loop, at row \<open>i\<close> and column \<open>j\<close>.\<close>

definition fillCell :: "string \<Rightarrow> string \<Rightarrow> nat \<Rightarrow> nat \<Rightarrow> nat list list \<Rightarrow> nat list list" where
  "fillCell str1Array str2Array i j dp =
     (if str1Array ! (i - 1) = str2Array ! (j - 1)
      then dpSet dp i j (dpGet dp (i - 1) (j - 1))
      else dpSet dp i j
             (1 + min (dpGet dp (i - 1) j) (min (dpGet dp i (j - 1)) (dpGet dp (i - 1) (j - 1)))))"

text \<open>\<^verbatim>\<open>for j in 1...n { ... }\<close> at row \<open>i\<close>\<close>

definition fillRow :: "string \<Rightarrow> string \<Rightarrow> nat \<Rightarrow> nat \<Rightarrow> nat list list \<Rightarrow> nat list list" where
  "fillRow str1Array str2Array n i dp = fold (fillCell str1Array str2Array i) [1..<Suc n] dp"

text \<open>\<^verbatim>\<open>for i in 1...m { for j in 1...n { ... } }\<close>\<close>

definition fillTable :: "string \<Rightarrow> string \<Rightarrow> nat \<Rightarrow> nat \<Rightarrow> nat list list \<Rightarrow> nat list list" where
  "fillTable str1Array str2Array m n dp = fold (fillRow str1Array str2Array n) [1..<Suc m] dp"

text \<open>
  \<^verbatim>\<open>1...m\<close> with \<open>m = 0\<close> and \<^verbatim>\<open>1...n\<close> with \<open>n = 0\<close> are invalid ranges. The outer
  range is built first; the inner one is built in the first pass of the outer loop.
\<close>

definition levenshteinDistance :: "string \<Rightarrow> string \<Rightarrow> trap + nat" where
  "levenshteinDistance str1 str2 =
     (let m = length str1; n = length str2;
          dp = replicate (m + 1) (replicate (n + 1) 0)
      in if m < 1 \<or> n < 1 then Inl InvalidRange
         else Inr (dpGet (fillTable str1 str2 m n (initRow n (initColumn m dp))) m n))"

definition stringSimilarity :: "string \<Rightarrow> string \<Rightarrow> trap + real" where
  "stringSimilarity str1 str2 =
     (if \<not> (str1 \<noteq> [] \<and> str2 \<noteq> []) then Inr (if str1 = [] \<and> str2 = [] then 1 else 0)
      else
        let longer = (if length str1 > length str2 then str1 else str2);
            shorter = (if length str1 > length str2 then str2 else str1)
        in case levenshteinDistance shorter longer of
             Inl t \<Rightarrow> Inl t
           | Inr editDistance \<Rightarrow> Inr (1 - real editDistance / real (length longer)))"

subsection \<open>Weighted score\<close>

definition amountSimilarity :: "Expense \<Rightarrow> Expense \<Rightarrow> real" where
  "amountSimilarity expense1 expense2 =
     (let amountDifference = \<bar>e_amount expense1 - e_amount expense2\<bar>;
          maxAmount = max (e_amount expense1) (e_amount expense2)
      in if maxAmount > 0 then 1 - amountDifference / maxAmount else 1)"

definition titleSimilarity :: "Expense \<Rightarrow> Expense \<Rightarrow> trap + real" where
  "titleSimilarity expense1 expense2 =
     stringSimilarity (case e_title expense1 of Some t \<Rightarrow> t | None \<Rightarrow> [])
                      (case e_title expense2 of Some t \<Rightarrow> t | None \<Rightarrow> [])"

text \<open>\<^verbatim>\<open>expense1.category == expense2.category\<close> compares the two optional strings.\<close>

definition categorySimilarity :: "Expense \<Rightarrow> Expense \<Rightarrow> real" where
  "categorySimilarity expense1 expense2 =
     (if e_category expense1 = e_category expense2 then 1 else 0)"

definition amountWeight :: real where "amountWeight = 4 / 10"
definition titleWeight :: real where "titleWeight = 35 / 100"
definition categoryWeight :: real where "categoryWeight = 25 / 100"

definition calculateSimilarity :: "Expense \<Rightarrow> Expense \<Rightarrow> trap + real" where
  "calculateSimilarity expense1 expense2 =
     (case titleSimilarity expense1 expense2 of
        Inl t \<Rightarrow> Inl t
      | Inr titleSim \<Rightarrow>
          let similarityScore = 0 + amountSimilarity expense1 expense2 * amountWeight
                                  + titleSim * titleWeight
                                  + categorySimilarity expense1 expense2 * categoryWeight;
              totalWeight = 0 + amountWeight + titleWeight + categoryWeight
          in Inr (if totalWeight > 0 then similarityScore / totalWeight else 0))"

definition threshold :: real where "threshold = 8 / 10"

fun filterSimilar :: "Expense \<Rightarrow> Expense list \<Rightarrow> trap + Expense list" where
  "filterSimilar expense [] = Inr []"
| "filterSimilar expense (otherExpense # rest) =
     (if \<not> (e_id otherExpense \<noteq> e_id expense) then filterSimilar expense rest
      else case calculateSimilarity expense otherExpense of
             Inl t \<Rightarrow> Inl t
           | Inr similarity \<Rightarrow>
               (case filterSimilar expense rest of
                  Inl t \<Rightarrow> Inl t
                | Inr kept \<Rightarrow> Inr (if similarity \<ge> threshold then otherExpense # kept else kept)))"

definition findSimilarExpenses :: "Expense \<Rightarrow> Expense list \<Rightarrow> trap + Expense list" where
  "findSimilarExpenses expense allExpenses = filterSimilar expense allExpenses"

section \<open>Temporal analysis\<close>

text \<open>
  \<^verbatim>\<open>for i in 1..<expenses.count\<close>: the range is invalid for an empty array. The body
  appends a gap only when both neighbours carry a date.
\<close>

definition intervalStep :: "Expense list \<Rightarrow> nat \<Rightarrow> TimeInterval list \<Rightarrow> TimeInterval list" where
  "intervalStep expenses i intervals =
     (case e_date (expenses ! (i - 1)) of
        None \<Rightarrow> intervals
      | Some prevDate \<Rightarrow>
          (case e_date (expenses ! i) of
             None \<Rightarrow> intervals
           | Some currentDate \<Rightarrow> intervals @ [currentDate - prevDate]))"

definition calculateIntervals :: "Expense list \<Rightarrow> trap + TimeInterval list" where
  "calculateIntervals expenses =
     (if length expenses < 1 then Inl InvalidRange
      else Inr (fold (intervalStep expenses) [1..<length expenses] []))"

text \<open>
  With a mean interval of zero, \<^verbatim>\<open>standardDeviation / averageInterval\<close> is NaN or
  infinite in IEEE arithmetic, and \<^verbatim>\<open>max(0.0, 1.0 - it)\<close> is \<open>0.0\<close> in both cases
  (the standard library's \<^verbatim>\<open>max(x, y)\<close> is \<^verbatim>\<open>y >= x ? y : x\<close>); in HOL \<open>x / 0 = 0\<close>,
  so the case is written out. The \<^verbatim>\<open>switch\<close> takes the first range that contains
  \<open>dayInterval\<close>.
\<close>

definition determineFrequency :: "TimeInterval list \<Rightarrow> RecurringFrequency \<times> real" where
  "determineFrequency intervals =
     (if \<not> intervals \<noteq> [] then (unknown, 0)
      else
        let averageInterval = foldl (+) 0 intervals / real (length intervals);
            dayInterval = averageInterval / (24 * 60 * 60);
            variance = foldl (+) 0 (map (\<lambda>x. (x - averageInterval) ^ 2) intervals)
                         / real (length intervals);
            standardDeviation = sqrt variance;
            confidence = (if averageInterval = 0 then 0
                          else max 0 (1 - standardDeviation / averageInterval));
            frequency =
              (if 0 \<le> dayInterval \<and> dayInterval < 2 then daily
               else if 6 \<le> dayInterval \<and> dayInterval \<le> 8 then weekly
               else if 13 \<le> dayInterval \<and> dayInterval \<le> 17 then biweekly
               else if 28 \<le> dayInterval \<and> dayInterval \<le> 32 then monthly
               else if 88 \<le> dayInterval \<and> dayInterval \<le> 95 then quarterly
               else if 360 \<le> dayInterval \<and> dayInterval \<le> 370 then yearly
               else unknown)
        in (frequency, confidence))"

section \<open>Pattern builder\<close>

text \<open>Only reached with a non-empty array (\<open>detectPattern\<close> checks the length first).\<close>

definition calculateAverageAmount :: "Expense list \<Rightarrow> real" where
  "calculateAverageAmount expenses =
     (let total = foldl (\<lambda>acc e. acc + e_amount e) 0 expenses
      in total / real (length expenses))"

text \<open>\<^verbatim>\<open>expenses.last?.date\<close>\<close>

definition lastDate :: "Expense list \<Rightarrow> Date option" where
  "lastDate expenses = (if expenses = [] then None else e_date (last expenses))"

definition predictNextOccurrence :: "Calendar \<Rightarrow> Expense list \<Rightarrow> RecurringFrequency \<Rightarrow> Date option" where
  "predictNextOccurrence cal expenses frequency =
     (case lastDate expenses of
        None \<Rightarrow> None
      | Some d \<Rightarrow>
          (case frequency of
             daily \<Rightarrow> cal day 1 d
           | weekly \<Rightarrow> cal day 7 d
           | biweekly \<Rightarrow> cal day 14 d
           | monthly \<Rightarrow> cal month 1 d
           | quarterly \<Rightarrow> cal month 3 d
           | yearly \<Rightarrow> cal year 1 d
           | unknown \<Rightarrow> None))"

text \<open>\<^verbatim>\<open>$0.date ?? Date()\<close>, the sort key.\<close>

definition dateOr :: "Date \<Rightarrow> Expense \<Rightarrow> Date" where
  "dateOr now e = (case e_date e of Some d \<Rightarrow> d | None \<Rightarrow> now)"

text \<open>
  \<^verbatim>\<open>sorted\<close> is modelled by the stable insertion sort \<open>sort_key\<close>. \<open>newId\<close> is the value
  \<^verbatim>\<open>UUID()\<close> draws for the pattern. The result is \<open>Inr None\<close> where the Swift function
  returns \<^verbatim>\<open>nil\<close>.
\<close>

definition detectPattern ::
  "Date \<Rightarrow> Calendar \<Rightarrow> uuid \<Rightarrow> Expense \<Rightarrow> Expense list \<Rightarrow> trap + RecurringPattern option" where
  "detectPattern now cal newId expense similarExpenses =
     (let allExpenses = [expense] @ similarExpenses;
          sortedExpenses = sort_key (dateOr now) allExpenses
      in if \<not> length sortedExpenses \<ge> 2 then Inr None
         else
           case calculateIntervals sortedExpenses of
             Inl t \<Rightarrow> Inl t
           | Inr intervals \<Rightarrow>
               let frequency = fst (determineFrequency intervals);
                   confidence = snd (determineFrequency intervals)
               in if \<not> confidence > 6 / 10 then Inr None
                  else Inr (Some
                    \<lparr> p_id = newId,
                      p_title = (case e_title expense of Some t \<Rightarrow> t | None \<Rightarrow> ''Unknown''),
                      p_category = (case e_category expense of Some c \<Rightarrow> c | None \<Rightarrow> ''Other''),
                      p_averageAmount = calculateAverageAmount sortedExpenses,
                      p_frequency = frequency,
                      p_confidence = confidence,
                      p_lastOccurrence =
                        (case lastDate sortedExpenses of Some d \<Rightarrow> d | None \<Rightarrow> now),
                      p_nextPredicted = predictNextOccurrence cal sortedExpenses frequency \<rparr>))"

section \<open>The detector's operations\<close>

text \<open>
  The operations mutate the two published arrays; the model passes the detector state
  and returns the new one. An \<^verbatim>\<open>Expense\<close> is an object; a suggestion holds a
  reference to it. The model stores the expense's value in the suggestion: the one
  write to an expense, in \<open>markAsRecurring\<close>, is to an object whose suggestions are all
  removed by the same call, so no stored suggestion can observe it.
\<close>

text \<open>
  \<open>storePattern\<close> and \<open>storeSuggestion\<close> are the two statements of the
  \<^verbatim>\<open>MainActor.run\<close> block of \<^verbatim>\<open>analyzeExpenseForPatterns\<close>, in their order.
  \<open>patternId\<close> and \<open>suggestionId\<close> are the values the two \<^verbatim>\<open>UUID()\<close> calls draw
  (in \<open>detectPattern\<close> and in the initialiser of \<^verbatim>\<open>RecurringSuggestion\<close>).
\<close>

definition storePattern :: "RecurringPattern \<Rightarrow> Detector \<Rightarrow> Detector" where
  "storePattern pattern st =
     (if \<not> list_ex (\<lambda>p. p_id p = p_id pattern) (detectedPatterns st)
      then st\<lparr>detectedPatterns := detectedPatterns st @ [pattern]\<rparr>
      else st)"

definition storeSuggestion :: "uuid \<Rightarrow> Expense \<Rightarrow> RecurringPattern \<Rightarrow> Detector \<Rightarrow> Detector" where
  "storeSuggestion suggestionId expense pattern st =
     (if \<not> e_isRecurring expense
      then st\<lparr>suggestions := suggestions st @
                [\<lparr> s_id = suggestionId, s_expense = expense, s_pattern = pattern,
                   s_confidence = p_confidence pattern \<rparr>]\<rparr>
      else st)"

definition analyzeExpenseForPatterns ::
  "Date \<Rightarrow> Calendar \<Rightarrow> uuid \<Rightarrow> uuid \<Rightarrow> Expense \<Rightarrow> Expense list \<Rightarrow> Detector \<Rightarrow> trap + Detector" where
  "analyzeExpenseForPatterns now cal patternId suggestionId expense allExpenses st =
     (case findSimilarExpenses expense allExpenses of
        Inl t \<Rightarrow> Inl t
      | Inr similarExpenses \<Rightarrow>
          if length similarExpenses \<ge> 2 then
            (case detectPattern now cal patternId expense similarExpenses of
               Inl t \<Rightarrow> Inl t
             | Inr None \<Rightarrow> Inr st
             | Inr (Some pattern) \<Rightarrow>
                 Inr (storeSuggestion suggestionId expense pattern (storePattern pattern st)))
          else Inr st)"

definition getSuggestedRecurring :: "Expense list \<Rightarrow> Detector \<Rightarrow> Expense list" where
  "getSuggestedRecurring expenses st = map s_expense (suggestions st)"

text \<open>The second component is the expense after \<^verbatim>\<open>expense.isRecurring = true\<close>.\<close>

definition markAsRecurring :: "Expense \<Rightarrow> Detector \<Rightarrow> Detector \<times> Expense" where
  "markAsRecurring expense st =
     (st\<lparr>suggestions := filter (\<lambda>s. \<not> (e_id (s_expense s) = e_id expense)) (suggestions st)\<rparr>,
      expense\<lparr>e_isRecurring := True\<rparr>)"

definition dismissSuggestion :: "RecurringSuggestion \<Rightarrow> Detector \<Rightarrow> Detector" where
  "dismissSuggestion suggestion st =
     st\<lparr>suggestions := filter (\<lambda>s. \<not> (s_id s = s_id suggestion)) (suggestions st)\<rparr>"

section \<open>Concrete data\<close>

definition emptyDetector :: Detector where
  "emptyDetector = \<lparr> detectedPatterns = [], suggestions = [] \<rparr>"

text \<open>A "Netflix" expense of 93.0 in category "Entertainment", not yet marked recurring.\<close>

definition netflix :: "nat \<Rightarrow> Date \<Rightarrow> Expense" where
  "netflix i d = \<lparr> e_id = Some i, e_amount = 93, e_title = Some ''Netflix'',
                   e_category = Some ''Entertainment'', e_date = Some d,
                   e_isRecurring = False \<rparr>"

definition days :: "real \<Rightarrow> TimeInterval" where
  "days k = k * (24 * 60 * 60)"

text \<open>An expense with a zero amount, an empty title and no category.\<close>

definition blank :: "nat \<Rightarrow> Expense" where
  "blank i = \<lparr> e_id = Some i, e_amount = 0, e_title = Some [], e_category = None,
               e_date = None, e_isRecurring = False \<rparr>"

text \<open>
  An instance of the calendar interface for concrete evaluation: days of 86400 seconds,
  months of 30 days, years of 365 days.
\<close>

definition fixedCalendar :: Calendar where
  "fixedCalendar c v d =
     Some (d + real_of_int v * (case c of day \<Rightarrow> days 1 | month \<Rightarrow> days 30 | year \<Rightarrow> days 365))"

text \<open>The monthly pattern the builder produces for a regular "Netflix" series.\<close>

definition netflixPattern :: "uuid \<Rightarrow> Date \<Rightarrow> Date option \<Rightarrow> RecurringPattern" where
  "netflixPattern newId lastOccurrence nextPredicted =
     \<lparr> p_id = newId, p_title = ''Netflix'', p_category = ''Entertainment'',
       p_averageAmount = 93, p_frequency = monthly, p_confidence = 1,
       p_lastOccurrence = lastOccurrence, p_nextPredicted = nextPredicted \<rparr>"

text \<open>A stored suggestion for the "Netflix" expense with id \<open>i\<close>.\<close>

definition netflixSuggestion :: "uuid \<Rightarrow> nat \<Rightarrow> RecurringSuggestion" where
  "netflixSuggestion suggestionId i =
     \<lparr> s_id = suggestionId, s_expense = netflix i 0,
       s_pattern = netflixPattern 0 0 None, s_confidence = 1 \<rparr>"

section \<open>Edit distance: the table computes the prefix recurrence\<close>

text \<open>
  \<open>prefixDistance a b i j\<close> is the recurrence the table implements, on the first \<open>i\<close>
  characters of \<open>a\<close> and the first \<open>j\<close> characters of \<open>b\<close>.
\<close>

fun prefixDistance :: "string \<Rightarrow> string \<Rightarrow> nat \<Rightarrow> nat \<Rightarrow> nat" where
  "prefixDistance a b 0 j = j"
| "prefixDistance a b (Suc i) 0 = Suc i"
| "prefixDistance a b (Suc i) (Suc j) =
     (if a ! i = b ! j then prefixDistance a b i j
      else 1 + min (prefixDistance a b i (Suc j))
                   (min (prefixDistance a b (Suc i) j) (prefixDistance a b i j)))"

definition tableShape :: "nat \<Rightarrow> nat \<Rightarrow> nat list list \<Rightarrow> bool" where
  "tableShape m n dp \<longleftrightarrow> length dp = Suc m \<and> (\<forall>i < Suc m. length (dp ! i) = Suc n)"

text \<open>
  The loop invariant at row \<open>i\<close>, column \<open>k\<close>: the rows above \<open>i\<close>, column 0, and row \<open>i\<close>
  left of \<open>k\<close> hold the recurrence's values.
\<close>

definition tableInv :: "string \<Rightarrow> string \<Rightarrow> nat \<Rightarrow> nat \<Rightarrow> nat \<Rightarrow> nat \<Rightarrow> nat list list \<Rightarrow> bool" where
  "tableInv a b m n i k dp \<longleftrightarrow>
     tableShape m n dp \<and>
     (\<forall>i' \<le> m. \<forall>j' \<le> n. (i' < i \<or> j' = 0 \<or> (i' = i \<and> j' < k)) \<longrightarrow>
        dpGet dp i' j' = prefixDistance a b i' j')"

lemma prefixDistance_zero_right: "prefixDistance a b i 0 = i"
  by (cases i) simp_all

lemma prefixDistance_sym: "prefixDistance a b i j = prefixDistance b a j i"
proof (induction a b i j rule: prefixDistance.induct)
  case (1 a b j)
  show ?case by (simp add: prefixDistance_zero_right)
next
  case (2 a b i)
  show ?case by simp
next
  case (3 a b i j)
  then show ?case by (auto simp: min.commute min.left_commute)
qed

lemma prefixDistance_same: "prefixDistance a a i i = 0"
  by (induction i) simp_all

lemma tableShape_dpSet:
  "tableShape m n dp \<Longrightarrow> tableShape m n (dpSet dp i j v)"
  by (cases "i < length dp") (auto simp: tableShape_def dpSet_def nth_list_update)

lemma dpGet_dpSet:
  "tableShape m n dp \<Longrightarrow> i \<le> m \<Longrightarrow> j \<le> n \<Longrightarrow> i' \<le> m \<Longrightarrow> j' \<le> n \<Longrightarrow>
   dpGet (dpSet dp i j v) i' j' = (if i' = i \<and> j' = j then v else dpGet dp i' j')"
  by (simp add: tableShape_def dpSet_def dpGet_def nth_list_update less_Suc_eq_le)

lemma fold_upt_inv:
  assumes "P a s" and "a \<le> b"
    and "\<And>i s. a \<le> i \<Longrightarrow> i < b \<Longrightarrow> P i s \<Longrightarrow> P (Suc i) (f i s)"
  shows "P b (fold f [a..<b] s)"
  using assms(2,3)
proof (induction b)
  case 0
  with assms(1) show ?case by simp
next
  case (Suc b)
  show ?case
  proof (cases "a = Suc b")
    case True
    with assms(1) show ?thesis by simp
  next
    case False
    with Suc.prems have le: "a \<le> b" by simp
    have "P b (fold f [a..<b] s)"
      by (rule Suc.IH [OF le]) (use Suc.prems in auto)
    then have "P (Suc b) (f b (fold f [a..<b] s))"
      using Suc.prems le by simp
    with le show ?thesis by simp
  qed
qed

lemma tableShape_replicate: "tableShape m n (replicate (m + 1) (replicate (n + 1) 0))"
  by (simp add: tableShape_def del: replicate_Suc)

lemma initColumn_inv:
  assumes "tableShape m n dp"
  shows "tableShape m n (initColumn m dp) \<and> (\<forall>i \<le> m. dpGet (initColumn m dp) i 0 = i)"
proof -
  let ?P = "\<lambda>k dp. tableShape m n dp \<and> (\<forall>i < k. dpGet dp i 0 = i)"
  have "?P (Suc m) (fold (\<lambda>i dp. dpSet dp i 0 i) [0..<Suc m] dp)"
  proof (rule fold_upt_inv [where P = ?P])
    show "?P 0 dp" using assms by simp
    show "0 \<le> Suc m" by simp
    fix i s assume "0 \<le> i" "i < Suc m" "?P i s"
    then show "?P (Suc i) (dpSet s i 0 i)"
      by (auto simp: tableShape_dpSet dpGet_dpSet less_Suc_eq)
  qed
  then show ?thesis by (simp add: initColumn_def less_Suc_eq_le)
qed

lemma initRow_inv:
  assumes "tableShape m n dp" and "\<forall>i \<le> m. dpGet dp i 0 = i"
  shows "tableShape m n (initRow n dp) \<and> (\<forall>i \<le> m. dpGet (initRow n dp) i 0 = i)
         \<and> (\<forall>j \<le> n. dpGet (initRow n dp) 0 j = j)"
proof -
  let ?P = "\<lambda>k dp. tableShape m n dp \<and> (\<forall>i \<le> m. dpGet dp i 0 = i) \<and> (\<forall>j < k. dpGet dp 0 j = j)"
  have "?P (Suc n) (fold (\<lambda>j dp. dpSet dp 0 j j) [0..<Suc n] dp)"
  proof (rule fold_upt_inv [where P = ?P])
    show "?P 0 dp" using assms by simp
    show "0 \<le> Suc n" by simp
    fix j s assume "0 \<le> j" "j < Suc n" "?P j s"
    then show "?P (Suc j) (dpSet s 0 j j)"
      by (auto simp: tableShape_dpSet dpGet_dpSet less_Suc_eq)
  qed
  then show ?thesis by (simp add: initRow_def less_Suc_eq_le)
qed

lemma init_tableInv:
  "tableInv a b m n 1 1 (initRow n (initColumn m (replicate (m + 1) (replicate (n + 1) 0))))"
proof -
  let ?dp = "initColumn m (replicate (m + 1) (replicate (n + 1) 0))"
  have c: "tableShape m n ?dp" "\<forall>i \<le> m. dpGet ?dp i 0 = i"
    using initColumn_inv [OF tableShape_replicate] by blast+
  from initRow_inv [OF c] show ?thesis
    by (auto simp: tableInv_def prefixDistance_zero_right)
qed

lemma fillCell_inv:
  assumes "tableInv a b m n i j dp" and "1 \<le> i" "i \<le> m" "1 \<le> j" "j \<le> n"
  shows "tableInv a b m n i (Suc j) (fillCell a b i j dp)"
proof -
  from assms obtain i0 j0 where ij: "i = Suc i0" "j = Suc j0"
    by (cases i; cases j) auto
  have sh: "tableShape m n dp" using assms(1) by (simp add: tableInv_def)
  have old: "\<And>i' j'. i' \<le> m \<Longrightarrow> j' \<le> n \<Longrightarrow> i' < i \<or> j' = 0 \<or> (i' = i \<and> j' < j) \<Longrightarrow>
              dpGet dp i' j' = prefixDistance a b i' j'"
    using assms(1) unfolding tableInv_def by blast
  have d1: "dpGet dp i0 j0 = prefixDistance a b i0 j0"
    and d2: "dpGet dp i0 j = prefixDistance a b i0 j"
    and d3: "dpGet dp i j0 = prefixDistance a b i j0"
    using assms(2-5) ij by (auto intro!: old)
  have new: "dpGet (fillCell a b i j dp) i j = prefixDistance a b i j"
    using sh assms(2-5) d1 d2 d3 ij
    by (simp add: fillCell_def dpGet_dpSet)
  have keep: "\<And>i' j'. i' \<le> m \<Longrightarrow> j' \<le> n \<Longrightarrow> (i', j') \<noteq> (i, j) \<Longrightarrow>
                 dpGet (fillCell a b i j dp) i' j' = dpGet dp i' j'"
    using sh assms(2-5) by (auto simp: fillCell_def dpGet_dpSet)
  have shape: "tableShape m n (fillCell a b i j dp)"
    using sh by (simp add: fillCell_def tableShape_dpSet)
  show ?thesis
    unfolding tableInv_def
  proof (intro conjI allI impI)
    show "tableShape m n (fillCell a b i j dp)" by (rule shape)
  next
    fix i' j'
    assume b: "i' \<le> m" "j' \<le> n" and c: "i' < i \<or> j' = 0 \<or> i' = i \<and> j' < Suc j"
    show "dpGet (fillCell a b i j dp) i' j' = prefixDistance a b i' j'"
    proof (cases "(i', j') = (i, j)")
      case True
      with new show ?thesis by simp
    next
      case False
      with c have "i' < i \<or> j' = 0 \<or> (i' = i \<and> j' < j)" by auto
      with keep [OF b False] old [OF b] show ?thesis by simp
    qed
  qed
qed

lemma fillRow_inv:
  assumes "tableInv a b m n i 1 dp" and "1 \<le> i" "i \<le> m"
  shows "tableInv a b m n (Suc i) 1 (fillRow a b n i dp)"
proof -
  have "tableInv a b m n i (Suc n) (fold (fillCell a b i) [1..<Suc n] dp)"
    by (rule fold_upt_inv [where P = "tableInv a b m n i"])
       (use assms in \<open>auto intro: fillCell_inv\<close>)
  then have full: "tableInv a b m n i (Suc n) (fillRow a b n i dp)"
    by (simp add: fillRow_def)
  show ?thesis
    unfolding tableInv_def
  proof (intro conjI allI impI)
    show "tableShape m n (fillRow a b n i dp)"
      using full by (simp add: tableInv_def)
  next
    fix i' j'
    assume b: "i' \<le> m" "j' \<le> n" and c: "i' < Suc i \<or> j' = 0 \<or> i' = Suc i \<and> j' < 1"
    then have "i' < i \<or> j' = 0 \<or> (i' = i \<and> j' < Suc n)" by auto
    with full b show "dpGet (fillRow a b n i dp) i' j' = prefixDistance a b i' j'"
      unfolding tableInv_def by blast
  qed
qed

lemma fillTable_inv:
  assumes "tableInv a b m n 1 1 dp"
  shows "tableInv a b m n (Suc m) 1 (fillTable a b m n dp)"
  unfolding fillTable_def
proof (rule fold_upt_inv [where P = "\<lambda>i. tableInv a b m n i 1"])
  show "tableInv a b m n 1 1 dp" by (rule assms)
  show "1 \<le> Suc m" by simp
  fix i s assume "1 \<le> i" "i < Suc m" "tableInv a b m n i 1 s"
  then show "tableInv a b m n (Suc i) 1 (fillRow a b n i s)"
    by (intro fillRow_inv) simp_all
qed

lemma levenshteinDistance_eq:
  "levenshteinDistance a b =
     (if a = [] \<or> b = [] then Inl InvalidRange
      else Inr (prefixDistance a b (length a) (length b)))"
proof -
  have "tableInv a b (length a) (length b) (Suc (length a)) 1
          (fillTable a b (length a) (length b)
             (initRow (length b) (initColumn (length a)
                (replicate (length a + 1) (replicate (length b + 1) 0)))))"
    by (rule fillTable_inv [OF init_tableInv])
  then show ?thesis
    by (auto simp: levenshteinDistance_def Let_def tableInv_def)
qed

section \<open>Similarity: symmetry and the value on equal fields\<close>

lemma stringSimilarity_eq:
  "stringSimilarity s t =
     Inr (if s = [] \<or> t = [] then (if s = [] \<and> t = [] then 1 else 0)
          else if length s > length t
               then 1 - real (prefixDistance t s (length t) (length s)) / real (length s)
               else 1 - real (prefixDistance s t (length s) (length t)) / real (length t))"
  by (simp add: stringSimilarity_def levenshteinDistance_eq Let_def)

lemma stringSimilarity_sym: "stringSimilarity s t = stringSimilarity t s"
proof -
  consider "length s < length t" | "length s = length t" | "length t < length s"
    by linarith
  then show ?thesis
  proof cases
    case 2
    then show ?thesis
      by (simp add: stringSimilarity_eq prefixDistance_sym [of s t])
  qed (auto simp: stringSimilarity_eq)
qed

lemma stringSimilarity_same: "stringSimilarity s s = Inr 1"
  by (simp add: stringSimilarity_eq prefixDistance_same)

lemma amountSimilarity_sym: "amountSimilarity a b = amountSimilarity b a"
  by (simp add: amountSimilarity_def Let_def max.commute abs_minus_commute)

lemma categorySimilarity_sym: "categorySimilarity a b = categorySimilarity b a"
  by (simp add: categorySimilarity_def eq_commute)

lemma titleSimilarity_sym: "titleSimilarity a b = titleSimilarity b a"
  unfolding titleSimilarity_def by (rule stringSimilarity_sym)

lemma titleSimilarity_defined: "\<exists>t. titleSimilarity a b = Inr t"
  by (simp add: titleSimilarity_def stringSimilarity_eq)

lemma calculateSimilarity_weighted:
  "titleSimilarity a b = Inr t \<Longrightarrow>
   calculateSimilarity a b =
     Inr (4 / 10 * amountSimilarity a b + 35 / 100 * t + 25 / 100 * categorySimilarity a b)"
  by (simp add: calculateSimilarity_def amountWeight_def titleWeight_def categoryWeight_def)

lemma calculateSimilarity_defined: "\<exists>r. calculateSimilarity a b = Inr r"
  using titleSimilarity_defined [of a b] calculateSimilarity_weighted [of a b] by blast

lemma calculateSimilarity_same:
  assumes "e_amount a = e_amount b" "e_title a = e_title b" "e_category a = e_category b"
  shows "calculateSimilarity a b = Inr 1"
proof -
  have "titleSimilarity a b = Inr 1"
    using assms(2) by (simp add: titleSimilarity_def stringSimilarity_same)
  from calculateSimilarity_weighted [OF this] assms(1,3) show ?thesis
    by (simp add: amountSimilarity_def categorySimilarity_def)
qed

text \<open>
  Claim C7. For every pair of expenses \<open>a\<close> and \<open>b\<close>, the similarity of \<open>a\<close> to \<open>b\<close> is
  the similarity of \<open>b\<close> to \<open>a\<close>.
\<close>

theorem C7_similarity_symmetric: "calculateSimilarity a b = calculateSimilarity b a"
proof -
  obtain t where t: "titleSimilarity a b = Inr t"
    using titleSimilarity_defined by blast
  then have t': "titleSimilarity b a = Inr t"
    by (simp add: titleSimilarity_sym [of b a])
  show ?thesis
    unfolding calculateSimilarity_weighted [OF t] calculateSimilarity_weighted [OF t']
    by (simp add: amountSimilarity_sym [of a b] categorySimilarity_sym [of a b])
qed

text \<open>
  Claim C3, as stated, fails: two expenses with zero amounts, empty titles and no
  category have similarity 1, not 0.
\<close>

theorem C3_blank_counterexample:
  "calculateSimilarity (blank 1) (blank 2) = Inr 1 \<and> calculateSimilarity (blank 1) (blank 2) \<noteq> Inr 0"
  by (simp add: calculateSimilarity_def titleSimilarity_def stringSimilarity_def
      amountSimilarity_def categorySimilarity_def blank_def
      amountWeight_def titleWeight_def categoryWeight_def)

text \<open>
  Claim C3, amended. For every pair of expenses in which all three compared fields are
  empty (both amounts are 0, both titles are empty or missing, both categories are
  missing), the similarity is 1: each of the three terms is 1 on empty inputs, and the
  total weight is never 0.
\<close>

theorem C3_all_empty_similarity_one:
  assumes "e_amount a = 0" "e_amount b = 0"
    and "e_title a = None \<or> e_title a = Some []" "e_title b = None \<or> e_title b = Some []"
    and "e_category a = None" "e_category b = None"
  shows "calculateSimilarity a b = Inr 1"
proof -
  have "titleSimilarity a b = Inr 1"
    using assms(3,4) by (auto simp: titleSimilarity_def stringSimilarity_def)
  from calculateSimilarity_weighted [OF this] assms(1,2,5,6) show ?thesis
    by (simp add: amountSimilarity_def categorySimilarity_def)
qed

theorem C3_all_empty_similarity_one_witness:
  "e_amount (blank 1) = 0 \<and> e_title (blank 2) = Some [] \<and> e_category (blank 1) = None
   \<and> calculateSimilarity (blank 1) (blank 2) = Inr 1"
  using C3_all_empty_similarity_one [of "blank 1" "blank 2"]
  by (simp add: blank_def)

text \<open>
  Claim C4, as stated, fails: a missing category compared with the explicit category
  "Other" gives a category term of 0; with all other fields equal the similarity is
  0.75.
\<close>

theorem C4_missing_vs_Other_counterexample:
  "categorySimilarity (netflix 1 0 \<lparr>e_category := None\<rparr>)
                      (netflix 2 0 \<lparr>e_category := Some ''Other''\<rparr>) = 0
   \<and> calculateSimilarity (netflix 1 0 \<lparr>e_category := None\<rparr>)
                         (netflix 2 0 \<lparr>e_category := Some ''Other''\<rparr>) = Inr (3 / 4)"
proof -
  have t: "titleSimilarity (netflix 1 0 \<lparr>e_category := None\<rparr>)
             (netflix 2 0 \<lparr>e_category := Some ''Other''\<rparr>) = Inr 1"
    by (simp add: titleSimilarity_def netflix_def stringSimilarity_same)
  show ?thesis
    unfolding calculateSimilarity_weighted [OF t]
    by (simp add: categorySimilarity_def amountSimilarity_def netflix_def)
qed

text \<open>
  Claim C4, amended. The category term has weight 0.25 in the similarity; it is 1
  exactly when the two optional categories are equal (both missing, or both present and
  equal as strings, case-sensitive) and 0 otherwise. A missing category is not replaced
  by "Other": it equals only another missing category.
\<close>

theorem C4_category_term:
  "categorySimilarity a b =
     (case (e_category a, e_category b) of
        (None, None) \<Rightarrow> 1
      | (Some x, Some y) \<Rightarrow> (if x = y then 1 else 0)
      | _ \<Rightarrow> 0)
   \<and> (\<exists>t. titleSimilarity a b = Inr t \<and>
          calculateSimilarity a b =
            Inr (4 / 10 * amountSimilarity a b + 35 / 100 * t + 25 / 100 * categorySimilarity a b))"
proof
  show "categorySimilarity a b =
     (case (e_category a, e_category b) of
        (None, None) \<Rightarrow> 1
      | (Some x, Some y) \<Rightarrow> (if x = y then 1 else 0)
      | _ \<Rightarrow> 0)"
    by (simp add: categorySimilarity_def split: option.splits)
next
  obtain t where t: "titleSimilarity a b = Inr t"
    using titleSimilarity_defined by blast
  with calculateSimilarity_weighted [OF t]
  show "\<exists>t. titleSimilarity a b = Inr t \<and>
          calculateSimilarity a b =
            Inr (4 / 10 * amountSimilarity a b + 35 / 100 * t + 25 / 100 * categorySimilarity a b)"
    by blast
qed

section \<open>Temporal analysis: the frequency buckets\<close>

lemma foldl_plus_sum_list: "foldl (+) (acc::real) xs = acc + sum_list xs"
  by (induction xs arbitrary: acc) simp_all

text \<open>
  Claim C5. For every nonempty list of time gaps, the mean gap in days \<open>d\<close> is classified
  as daily for \<open>0 \<le> d < 2\<close>, weekly for \<open>6 \<le> d \<le> 8\<close>, biweekly for \<open>13 \<le> d \<le> 17\<close>,
  monthly for \<open>28 \<le> d \<le> 32\<close>, quarterly for \<open>88 \<le> d \<le> 95\<close>, yearly for
  \<open>360 \<le> d \<le> 370\<close>, and as unknown for every other value, the gaps between the ranges
  included.
\<close>

theorem C5_frequency_buckets:
  assumes "intervals \<noteq> []"
  shows "let d = (sum_list intervals / real (length intervals)) / 86400;
             f = fst (determineFrequency intervals)
         in (0 \<le> d \<and> d < 2 \<longrightarrow> f = daily)
          \<and> (6 \<le> d \<and> d \<le> 8 \<longrightarrow> f = weekly)
          \<and> (13 \<le> d \<and> d \<le> 17 \<longrightarrow> f = biweekly)
          \<and> (28 \<le> d \<and> d \<le> 32 \<longrightarrow> f = monthly)
          \<and> (88 \<le> d \<and> d \<le> 95 \<longrightarrow> f = quarterly)
          \<and> (360 \<le> d \<and> d \<le> 370 \<longrightarrow> f = yearly)
          \<and> (\<not> (0 \<le> d \<and> d < 2) \<and> \<not> (6 \<le> d \<and> d \<le> 8) \<and> \<not> (13 \<le> d \<and> d \<le> 17)
               \<and> \<not> (28 \<le> d \<and> d \<le> 32) \<and> \<not> (88 \<le> d \<and> d \<le> 95) \<and> \<not> (360 \<le> d \<and> d \<le> 370)
               \<longrightarrow> f = unknown)"
  using assms
  by (simp add: determineFrequency_def Let_def foldl_plus_sum_list)

theorem C5_frequency_buckets_witness:
  "[days 4, days 4] \<noteq> [] \<and> fst (determineFrequency [days 4, days 4]) = unknown
   \<and> fst (determineFrequency [days 29, days 31]) = monthly
   \<and> fst (determineFrequency [days 1]) = daily
   \<and> fst (determineFrequency [days 7]) = weekly
   \<and> fst (determineFrequency [days 14]) = biweekly
   \<and> fst (determineFrequency [days 90]) = quarterly
   \<and> fst (determineFrequency [days 365]) = yearly"
  using C5_frequency_buckets [of "[days 4, days 4]"] C5_frequency_buckets [of "[days 29, days 31]"]
    C5_frequency_buckets [of "[days 1]"] C5_frequency_buckets [of "[days 7]"]
    C5_frequency_buckets [of "[days 14]"] C5_frequency_buckets [of "[days 90]"]
    C5_frequency_buckets [of "[days 365]"]
  by (simp add: days_def Let_def)

lemma determineFrequency_regular_month:
  "determineFrequency (replicate (Suc n) (days 30)) = (monthly, 1)"
proof -
  let ?xs = "replicate (Suc n) (days 30)"
  have "foldl (+) 0 ?xs = real (Suc n) * days 30"
    by (simp add: foldl_plus_sum_list sum_list_replicate algebra_simps)
  then have avg: "foldl (+) 0 ?xs / real (length ?xs) = days 30"
    by simp
  have var: "foldl (+) 0 (map (\<lambda>x. (x - days 30)\<^sup>2) ?xs) = 0"
    by (simp add: foldl_plus_sum_list sum_list_replicate)
  have ne: "?xs \<noteq> []" by simp
  show ?thesis
    unfolding determineFrequency_def Let_def avg var
    using ne by (simp add: days_def)
qed

lemma calculateIntervals_two:
  "calculateIntervals [netflix i s, netflix j t] = Inr [t - s]"
  by (simp add: calculateIntervals_def intervalStep_def netflix_def)

lemma calculateIntervals_three:
  "calculateIntervals [netflix i s, netflix j t, netflix k u] = Inr [t - s, u - t]"
  by (simp add: calculateIntervals_def intervalStep_def netflix_def upt_conv_Cons)

lemma calculateIntervals_four:
  "calculateIntervals [netflix i s, netflix j t, netflix k u, netflix l v] = Inr [t - s, u - t, v - u]"
  by (simp add: calculateIntervals_def intervalStep_def netflix_def upt_conv_Cons)

section \<open>No operation stops on an invalid range\<close>

lemma filterSimilar_defined:
  "\<exists>kept. filterSimilar expense allExpenses = Inr kept"
proof (induction allExpenses)
  case Nil
  show ?case by simp
next
  case (Cons other rest)
  obtain r where r: "calculateSimilarity expense other = Inr r"
    using calculateSimilarity_defined by blast
  from Cons obtain kept where "filterSimilar expense rest = Inr kept" by blast
  with r show ?case by simp
qed

lemma calculateIntervals_defined:
  "expenses \<noteq> [] \<Longrightarrow> \<exists>intervals. calculateIntervals expenses = Inr intervals"
  by (cases expenses) (simp_all add: calculateIntervals_def)

lemma sorted_nonempty: "sort_key (dateOr now) (expense # similarExpenses) \<noteq> []"
  by (metis length_sort list.size(3) nat.simps(3) length_Cons)

lemma detectPattern_defined:
  "\<exists>r. detectPattern now cal newId expense similarExpenses = Inr r"
proof -
  obtain intervals where
    "calculateIntervals (sort_key (dateOr now) (expense # similarExpenses)) = Inr intervals"
    using calculateIntervals_defined [OF sorted_nonempty] by blast
  then show ?thesis
    by (simp add: detectPattern_def Let_def del: sort_key_simps)
qed

lemma analyze_defined:
  "\<exists>st'. analyzeExpenseForPatterns now cal patternId suggestionId expense allExpenses st = Inr st'"
proof -
  obtain similar where s: "findSimilarExpenses expense allExpenses = Inr similar"
    using filterSimilar_defined unfolding findSimilarExpenses_def by blast
  obtain r where r: "detectPattern now cal patternId expense similar = Inr r"
    using detectPattern_defined by blast
  show ?thesis
    by (cases r) (simp_all add: analyzeExpenseForPatterns_def s r)
qed

section \<open>Pattern builder\<close>

lemma lastDate_sorted:
  assumes "list_all (\<lambda>e. e_date e \<noteq> None) (expense # similarExpenses)"
  shows "\<exists>d. lastDate (sort_key (dateOr now) (expense # similarExpenses)) = Some d"
proof -
  let ?sorted = "sort_key (dateOr now) (expense # similarExpenses)"
  have ne: "?sorted \<noteq> []" by (rule sorted_nonempty)
  then have "last ?sorted \<in> set ?sorted" by (rule last_in_set)
  then have "last ?sorted \<in> set (expense # similarExpenses)"
    by (simp del: sort_key_simps)
  with assms have "e_date (last ?sorted) \<noteq> None"
    unfolding list_all_iff by blast
  with ne show ?thesis by (auto simp: lastDate_def simp del: sort_key_simps)
qed

lemma sorted_netflix_two:
  "sort_key (dateOr now) [netflix j (t + days 30), netflix i t]
     = [netflix i t, netflix j (t + days 30)]"
  by (simp add: dateOr_def netflix_def days_def)

lemma sorted_netflix_three:
  "sort_key (dateOr now) [netflix k (t + days 60), netflix i t, netflix j (t + days 30)]
     = [netflix i t, netflix j (t + days 30), netflix k (t + days 60)]"
  by (simp add: dateOr_def netflix_def days_def)

lemma sorted_netflix_four:
  "sort_key (dateOr now)
     [netflix l (t + days 90), netflix i t, netflix j (t + days 30), netflix k (t + days 60)]
     = [netflix i t, netflix j (t + days 30), netflix k (t + days 60), netflix l (t + days 90)]"
  by (simp add: dateOr_def netflix_def days_def)

lemma netflix_fields:
  "e_title (netflix i t) = Some ''Netflix''"
  "e_category (netflix i t) = Some ''Entertainment''"
  by (simp_all add: netflix_def)

lemma detectPattern_netflix_two:
  "detectPattern now cal newId (netflix j (t + days 30)) [netflix i t]
     = Inr (Some (netflixPattern newId (t + days 30) (cal month 1 (t + days 30))))"
proof -
  have d: "determineFrequency [days 30] = (monthly, 1)"
    using determineFrequency_regular_month [of 0] by simp
  have i: "calculateIntervals [netflix i t, netflix j (t + days 30)] = Inr [days 30]"
    by (simp add: calculateIntervals_two)
  have a: "calculateAverageAmount [netflix i t, netflix j (t + days 30)] = 93"
    by (simp add: calculateAverageAmount_def netflix_def)
  have l: "lastDate [netflix i t, netflix j (t + days 30)] = Some (t + days 30)"
    by (simp add: lastDate_def netflix_def)
  show ?thesis
    unfolding detectPattern_def Let_def append.simps sorted_netflix_two i
    by (simp add: d a l netflix_fields predictNextOccurrence_def netflixPattern_def)
qed

lemma detectPattern_netflix_three:
  "detectPattern now cal newId (netflix k (t + days 60)) [netflix i t, netflix j (t + days 30)]
     = Inr (Some (netflixPattern newId (t + days 60) (cal month 1 (t + days 60))))"
proof -
  have d: "determineFrequency [days 30, days 30] = (monthly, 1)"
    using determineFrequency_regular_month [of 1] by (simp add: numeral_2_eq_2)
  have i: "calculateIntervals [netflix i t, netflix j (t + days 30), netflix k (t + days 60)]
             = Inr [days 30, days 30]"
    by (simp add: calculateIntervals_three days_def)
  have a: "calculateAverageAmount [netflix i t, netflix j (t + days 30), netflix k (t + days 60)] = 93"
    by (simp add: calculateAverageAmount_def netflix_def)
  have l: "lastDate [netflix i t, netflix j (t + days 30), netflix k (t + days 60)] = Some (t + days 60)"
    by (simp add: lastDate_def netflix_def)
  show ?thesis
    unfolding detectPattern_def Let_def append.simps sorted_netflix_three i
    by (simp add: d a l netflix_fields predictNextOccurrence_def netflixPattern_def)
qed

lemma detectPattern_netflix_four:
  "detectPattern now cal newId (netflix l (t + days 90))
       [netflix i t, netflix j (t + days 30), netflix k (t + days 60)]
     = Inr (Some (netflixPattern newId (t + days 90) (cal month 1 (t + days 90))))"
proof -
  have d: "determineFrequency [days 30, days 30, days 30] = (monthly, 1)"
    using determineFrequency_regular_month [of 2] by (simp add: numeral_2_eq_2)
  have i: "calculateIntervals
             [netflix i t, netflix j (t + days 30), netflix k (t + days 60), netflix l (t + days 90)]
             = Inr [days 30, days 30, days 30]"
    by (simp add: calculateIntervals_four days_def)
  have a: "calculateAverageAmount
             [netflix i t, netflix j (t + days 30), netflix k (t + days 60), netflix l (t + days 90)] = 93"
    by (simp add: calculateAverageAmount_def netflix_def)
  have l: "lastDate
             [netflix i t, netflix j (t + days 30), netflix k (t + days 60), netflix l (t + days 90)]
             = Some (t + days 90)"
    by (simp add: lastDate_def netflix_def)
  show ?thesis
    unfolding detectPattern_def Let_def append.simps sorted_netflix_four i
    by (simp add: d a l netflix_fields predictNextOccurrence_def netflixPattern_def)
qed

text \<open>
  Claim C6. For every pattern the builder returns from a merged set in which every
  expense has a timestamp, \<open>nextPredicted\<close> is \<open>lastOccurrence\<close> advanced by the calendar
  by one unit of the classified frequency (1 day, 7 days, 14 days, 1 month, 3 months,
  1 year), and nothing for the frequency unknown; where the calendar's date addition
  yields a date, \<open>nextPredicted\<close> is missing exactly when the frequency is unknown.
\<close>

theorem C6_next_predicted:
  assumes "list_all (\<lambda>e. e_date e \<noteq> None) (expense # similarExpenses)"
    and "detectPattern now cal newId expense similarExpenses = Inr (Some p)"
  shows "p_nextPredicted p =
           (case p_frequency p of
              daily \<Rightarrow> cal day 1 (p_lastOccurrence p)
            | weekly \<Rightarrow> cal day 7 (p_lastOccurrence p)
            | biweekly \<Rightarrow> cal day 14 (p_lastOccurrence p)
            | monthly \<Rightarrow> cal month 1 (p_lastOccurrence p)
            | quarterly \<Rightarrow> cal month 3 (p_lastOccurrence p)
            | yearly \<Rightarrow> cal year 1 (p_lastOccurrence p)
            | unknown \<Rightarrow> None)
         \<and> ((\<forall>c v d. cal c v d \<noteq> None) \<longrightarrow>
              (p_nextPredicted p = None \<longleftrightarrow> p_frequency p = unknown))"
proof -
  let ?sorted = "sort_key (dateOr now) (expense # similarExpenses)"
  obtain d where d: "lastDate ?sorted = Some d"
    using lastDate_sorted [OF assms(1)] by blast
  obtain intervals where i: "calculateIntervals ?sorted = Inr intervals"
    using assms(2)
    by (auto simp: detectPattern_def Let_def simp del: sort_key_simps split: if_splits sum.splits)
  let ?f = "fst (determineFrequency intervals)"
  have p: "p_frequency p = ?f" "p_lastOccurrence p = d"
    "p_nextPredicted p = predictNextOccurrence cal ?sorted ?f"
    using assms(2) i d
    by (auto simp: detectPattern_def Let_def simp del: sort_key_simps split: if_splits)
  have first: "p_nextPredicted p =
           (case p_frequency p of
              daily \<Rightarrow> cal day 1 (p_lastOccurrence p)
            | weekly \<Rightarrow> cal day 7 (p_lastOccurrence p)
            | biweekly \<Rightarrow> cal day 14 (p_lastOccurrence p)
            | monthly \<Rightarrow> cal month 1 (p_lastOccurrence p)
            | quarterly \<Rightarrow> cal month 3 (p_lastOccurrence p)
            | yearly \<Rightarrow> cal year 1 (p_lastOccurrence p)
            | unknown \<Rightarrow> None)"
    by (cases "p_frequency p")
       (simp_all add: p(3) p(2) p(1) [symmetric] predictNextOccurrence_def d del: sort_key_simps)
  have "p_nextPredicted p = None \<longleftrightarrow> p_frequency p = unknown"
    if "\<forall>c v d. cal c v d \<noteq> None"
    using that unfolding first by (cases "p_frequency p") simp_all
  with first show ?thesis by blast
qed

theorem C6_next_predicted_witness:
  "list_all (\<lambda>e. e_date e \<noteq> None) [netflix 3 (days 60), netflix 1 0, netflix 2 (days 30)]
   \<and> detectPattern 0 fixedCalendar 7 (netflix 3 (days 60)) [netflix 1 0, netflix 2 (days 30)]
       = Inr (Some (netflixPattern 7 (days 60) (Some (days 90))))
   \<and> (\<forall>c v d. fixedCalendar c v d \<noteq> None)
   \<and> p_nextPredicted (netflixPattern 7 (days 60) (Some (days 90)))
       = fixedCalendar month 1 (p_lastOccurrence (netflixPattern 7 (days 60) (Some (days 90))))
   \<and> p_nextPredicted (netflixPattern 7 (days 60) (Some (days 90))) \<noteq> None"
proof -
  have h1: "list_all (\<lambda>e. e_date e \<noteq> None) (netflix 3 (days 60) # [netflix 1 0, netflix 2 (days 30)])"
    by (simp add: netflix_def)
  have h2: "detectPattern 0 fixedCalendar 7 (netflix 3 (days 60)) [netflix 1 0, netflix 2 (days 30)]
       = Inr (Some (netflixPattern 7 (days 60) (Some (days 90))))"
    using detectPattern_netflix_three [of 0 fixedCalendar 7 3 0 1 2]
    by (simp add: fixedCalendar_def days_def)
  have h3: "\<forall>c v d. fixedCalendar c v d \<noteq> None"
    by (simp add: fixedCalendar_def)
  from C6_next_predicted [OF h1 h2] h1 h2 h3 show ?thesis
    by (simp add: netflixPattern_def)
qed

section \<open>The detector's operations\<close>

lemma calculateSimilarity_netflix: "calculateSimilarity (netflix i s) (netflix j t) = Inr 1"
  by (rule calculateSimilarity_same) (simp_all add: netflix_def)

lemma filterSimilar_netflix_keep:
  "j \<noteq> i \<Longrightarrow>
   filterSimilar (netflix i s) (netflix j t # rest) =
     (case filterSimilar (netflix i s) rest of
        Inl x \<Rightarrow> Inl x
      | Inr kept \<Rightarrow> Inr (netflix j t # kept))"
proof -
  assume "j \<noteq> i"
  then have "e_id (netflix j t) \<noteq> e_id (netflix i s)"
    by (simp add: netflix_def)
  then show ?thesis
    by (simp add: calculateSimilarity_netflix threshold_def split: sum.splits)
qed

lemma findSimilar_netflix_one:
  "i \<noteq> j \<Longrightarrow> findSimilarExpenses (netflix j s) [netflix i t] = Inr [netflix i t]"
  by (simp add: findSimilarExpenses_def filterSimilar_netflix_keep del: filterSimilar.simps(2))

lemma findSimilar_netflix_two:
  "i \<noteq> k \<Longrightarrow> j \<noteq> k \<Longrightarrow>
   findSimilarExpenses (netflix k s) [netflix i t, netflix j u] = Inr [netflix i t, netflix j u]"
  by (simp add: findSimilarExpenses_def filterSimilar_netflix_keep del: filterSimilar.simps(2))

lemma findSimilar_netflix_three:
  "i \<noteq> l \<Longrightarrow> j \<noteq> l \<Longrightarrow> k \<noteq> l \<Longrightarrow>
   findSimilarExpenses (netflix l s) [netflix i t, netflix j u, netflix k v]
     = Inr [netflix i t, netflix j u, netflix k v]"
  by (simp add: findSimilarExpenses_def filterSimilar_netflix_keep del: filterSimilar.simps(2))

lemma analyze_netflix_one:
  "i \<noteq> j \<Longrightarrow>
   analyzeExpenseForPatterns now cal patternId suggestionId (netflix j s) [netflix i t] st = Inr st"
  by (simp add: analyzeExpenseForPatterns_def findSimilar_netflix_one)

lemma analyze_netflix_two:
  "i \<noteq> k \<Longrightarrow> j \<noteq> k \<Longrightarrow>
   analyzeExpenseForPatterns now cal patternId suggestionId (netflix k (t + days 60))
       [netflix i t, netflix j (t + days 30)] st
     = Inr (storeSuggestion suggestionId (netflix k (t + days 60))
              (netflixPattern patternId (t + days 60) (cal month 1 (t + days 60)))
              (storePattern (netflixPattern patternId (t + days 60) (cal month 1 (t + days 60))) st))"
  by (simp add: analyzeExpenseForPatterns_def findSimilar_netflix_two detectPattern_netflix_three)

lemma analyze_netflix_three:
  "i \<noteq> l \<Longrightarrow> j \<noteq> l \<Longrightarrow> k \<noteq> l \<Longrightarrow>
   analyzeExpenseForPatterns now cal patternId suggestionId (netflix l (t + days 90))
       [netflix i t, netflix j (t + days 30), netflix k (t + days 60)] st
     = Inr (storeSuggestion suggestionId (netflix l (t + days 90))
              (netflixPattern patternId (t + days 90) (cal month 1 (t + days 90)))
              (storePattern (netflixPattern patternId (t + days 90) (cal month 1 (t + days 90))) st))"
  by (simp add: analyzeExpenseForPatterns_def findSimilar_netflix_three detectPattern_netflix_four)

text \<open>Analysis leaves the stored suggestions in place and adds at most one, at the end.\<close>

lemma analyze_appends:
  "\<exists>st' new. analyzeExpenseForPatterns now cal patternId suggestionId expense allExpenses st = Inr st'
      \<and> suggestions st' = suggestions st @ new
      \<and> (new = [] \<or> (\<exists>s. new = [s] \<and> s_id s = suggestionId \<and> s_expense s = expense))"
proof -
  obtain similar where s: "findSimilarExpenses expense allExpenses = Inr similar"
    using filterSimilar_defined unfolding findSimilarExpenses_def by blast
  obtain r where r: "detectPattern now cal patternId expense similar = Inr r"
    using detectPattern_defined by blast
  show ?thesis
    by (cases r)
       (simp_all add: analyzeExpenseForPatterns_def s r storeSuggestion_def storePattern_def)
qed

text \<open>
  Claim C1, as stated, fails: with a history of exactly one earlier "Netflix" expense,
  analysing the second one 30 days later stores no suggestion and no pattern.
\<close>

theorem C1_single_history_counterexample:
  "analyzeExpenseForPatterns (days 30) fixedCalendar 10 11 (netflix 2 (days 30)) [netflix 1 0]
     emptyDetector = Inr emptyDetector
   \<and> suggestions emptyDetector = []"
  using analyze_netflix_one [of 1 2]
  by (simp add: emptyDetector_def)

text \<open>
  Claim C1, amended. For two "Netflix" expenses (category "Entertainment", amount 93.0)
  30 days apart, the builder applied to the second with the first as cluster returns a
  pattern with frequency monthly and confidence above 0.6 (it needs only two merged
  elements); the analysis of the second expense with the first as history returns no
  suggestion, because the builder is called only when at least two history expenses are
  similar. With a third such expense another 30 days later and the first two as
  history, the analysis returns a suggestion for it whose pattern has frequency monthly
  and confidence above 0.6.
\<close>

theorem C1_scenario_A:
  "(\<exists>p. detectPattern now cal patternId (netflix 2 (t + days 30)) [netflix 1 t] = Inr (Some p)
        \<and> p_frequency p = monthly \<and> p_confidence p > 6 / 10)
   \<and> analyzeExpenseForPatterns now cal patternId suggestionId (netflix 2 (t + days 30))
        [netflix 1 t] emptyDetector = Inr emptyDetector
   \<and> (\<exists>st s. analyzeExpenseForPatterns now cal patternId suggestionId (netflix 3 (t + days 60))
                 [netflix 1 t, netflix 2 (t + days 30)] emptyDetector = Inr st
             \<and> suggestions st = [s] \<and> s_expense s = netflix 3 (t + days 60)
             \<and> p_frequency (s_pattern s) = monthly \<and> s_confidence s > 6 / 10)"
proof (intro conjI)
  show "\<exists>p. detectPattern now cal patternId (netflix 2 (t + days 30)) [netflix 1 t] = Inr (Some p)
        \<and> p_frequency p = monthly \<and> p_confidence p > 6 / 10"
    by (simp add: detectPattern_netflix_two netflixPattern_def)
  show "analyzeExpenseForPatterns now cal patternId suggestionId (netflix 2 (t + days 30))
        [netflix 1 t] emptyDetector = Inr emptyDetector"
    by (rule analyze_netflix_one) simp
  show "\<exists>st s. analyzeExpenseForPatterns now cal patternId suggestionId (netflix 3 (t + days 60))
                 [netflix 1 t, netflix 2 (t + days 30)] emptyDetector = Inr st
             \<and> suggestions st = [s] \<and> s_expense s = netflix 3 (t + days 60)
             \<and> p_frequency (s_pattern s) = monthly \<and> s_confidence s > 6 / 10"
    using analyze_netflix_two [of 1 3 2 now cal patternId suggestionId t emptyDetector]
    by (simp add: storeSuggestion_def storePattern_def emptyDetector_def netflixPattern_def
        netflix_def)
qed

text \<open>
  Claim C2 against the code: the third and the fourth expense of one "Netflix" series
  are analysed in turn, each against the earlier ones. Each analysis draws a new
  pattern id (here 10, then 20), so the second pattern is stored beside the first: two
  stored patterns for one title and category.
\<close>

theorem C2_duplicate_patterns:
  "(case analyzeExpenseForPatterns (days 60) fixedCalendar 10 11 (netflix 3 (days 60))
           [netflix 1 0, netflix 2 (days 30)] emptyDetector of
      Inl t \<Rightarrow> []
    | Inr st1 \<Rightarrow>
        (case analyzeExpenseForPatterns (days 90) fixedCalendar 20 21 (netflix 4 (days 90))
                [netflix 1 0, netflix 2 (days 30), netflix 3 (days 60)] st1 of
           Inl t \<Rightarrow> []
         | Inr st2 \<Rightarrow> map (\<lambda>p. (p_id p, p_title p, p_category p)) (detectedPatterns st2)))
   = [(10, ''Netflix'', ''Entertainment''), (20, ''Netflix'', ''Entertainment'')]"
  using analyze_netflix_two [of 1 3 2 "days 60" fixedCalendar 10 11 0 emptyDetector]
    analyze_netflix_three [of 1 4 2 3 "days 90" fixedCalendar 20 21 0]
  by (simp add: storeSuggestion_def storePattern_def emptyDetector_def netflixPattern_def
      netflix_def)

text \<open>
  Claim C8. For every detector state and every suggestion id, dismissing twice yields
  the state of dismissing once; when the id matches no stored suggestion the whole state
  is unchanged; and dismissing never changes the stored patterns. The operation is a
  total function of the state: it has no error result.
\<close>

theorem C8_dismiss:
  "dismissSuggestion s (dismissSuggestion s st) = dismissSuggestion s st
   \<and> (\<not> list_ex (\<lambda>x. s_id x = s_id s) (suggestions st) \<longrightarrow> dismissSuggestion s st = st)
   \<and> detectedPatterns (dismissSuggestion s st) = detectedPatterns st"
proof (intro conjI impI)
  show "dismissSuggestion s (dismissSuggestion s st) = dismissSuggestion s st"
    by (simp add: dismissSuggestion_def)
  show "detectedPatterns (dismissSuggestion s st) = detectedPatterns st"
    by (simp add: dismissSuggestion_def)
  assume "\<not> list_ex (\<lambda>x. s_id x = s_id s) (suggestions st)"
  then have "filter (\<lambda>x. \<not> (s_id x = s_id s)) (suggestions st) = suggestions st"
    by (simp add: list_ex_iff filter_id_conv)
  then show "dismissSuggestion s st = st"
    by (simp add: dismissSuggestion_def)
qed

theorem C8_dismiss_witness:
  "\<not> list_ex (\<lambda>x. s_id x = s_id (netflixSuggestion 9 1))
       (suggestions \<lparr> detectedPatterns = [netflixPattern 0 0 None],
                       suggestions = [netflixSuggestion 5 1, netflixSuggestion 6 2] \<rparr>)
   \<and> dismissSuggestion (netflixSuggestion 9 1)
        \<lparr> detectedPatterns = [netflixPattern 0 0 None],
          suggestions = [netflixSuggestion 5 1, netflixSuggestion 6 2] \<rparr>
      = \<lparr> detectedPatterns = [netflixPattern 0 0 None],
          suggestions = [netflixSuggestion 5 1, netflixSuggestion 6 2] \<rparr>"
proof -
  have h: "\<not> list_ex (\<lambda>x. s_id x = s_id (netflixSuggestion 9 1))
       (suggestions \<lparr> detectedPatterns = [netflixPattern 0 0 None],
                       suggestions = [netflixSuggestion 5 1, netflixSuggestion 6 2] \<rparr>)"
    by (simp add: netflixSuggestion_def)
  with C8_dismiss [of "netflixSuggestion 9 1"
      "\<lparr> detectedPatterns = [netflixPattern 0 0 None],
         suggestions = [netflixSuggestion 5 1, netflixSuggestion 6 2] \<rparr>"]
  show ?thesis by blast
qed

text \<open>
  Claim C9. For every detector state and expense, promoting the expense removes every
  stored suggestion that refers to an expense with that id (all of them, when there are
  several) and keeps the others, hands the expense back with its recurring flag set,
  and leaves the stored patterns unchanged.
\<close>

theorem C9_promote:
  "(let (st', e') = markAsRecurring e st
    in suggestions st' = filter (\<lambda>s. e_id (s_expense s) \<noteq> e_id e) (suggestions st)
       \<and> \<not> list_ex (\<lambda>s. e_id (s_expense s) = e_id e) (suggestions st')
       \<and> e_isRecurring e'
       \<and> e' = e\<lparr>e_isRecurring := True\<rparr>
       \<and> detectedPatterns st' = detectedPatterns st)"
  by (simp add: markAsRecurring_def list_ex_iff)

theorem C9_promote_witness:
  "markAsRecurring (netflix 1 0)
     \<lparr> detectedPatterns = [netflixPattern 0 0 None],
       suggestions = [netflixSuggestion 5 1, netflixSuggestion 6 2, netflixSuggestion 7 1] \<rparr>
   = (\<lparr> detectedPatterns = [netflixPattern 0 0 None], suggestions = [netflixSuggestion 6 2] \<rparr>,
      netflix 1 0 \<lparr>e_isRecurring := True\<rparr>)"
  using C9_promote [of "netflix 1 0"
      "\<lparr> detectedPatterns = [netflixPattern 0 0 None],
         suggestions = [netflixSuggestion 5 1, netflixSuggestion 6 2, netflixSuggestion 7 1] \<rparr>"]
  by (simp add: markAsRecurring_def netflixSuggestion_def netflix_def)

text \<open>
  Claim C10. The list of suggested expenses does not depend on the argument: for any two
  argument lists and the same detector state the result is the same, namely the expense
  of each stored suggestion in the order of the store; and that order is the order of
  insertion, since an analysis keeps the stored suggestions and adds at most the analysed
  expense at the end.
\<close>

theorem C10_argument_ignored:
  "getSuggestedRecurring xs st = getSuggestedRecurring ys st
   \<and> getSuggestedRecurring xs st = map s_expense (suggestions st)
   \<and> (\<exists>st' new.
        analyzeExpenseForPatterns now cal patternId suggestionId expense allExpenses st = Inr st'
        \<and> getSuggestedRecurring xs st' = getSuggestedRecurring ys st @ new
        \<and> (new = [] \<or> new = [expense]))"
proof (intro conjI)
  show "getSuggestedRecurring xs st = getSuggestedRecurring ys st"
    by (simp add: getSuggestedRecurring_def)
  show "getSuggestedRecurring xs st = map s_expense (suggestions st)"
    by (simp add: getSuggestedRecurring_def)
  obtain st' new where a:
    "analyzeExpenseForPatterns now cal patternId suggestionId expense allExpenses st = Inr st'"
    "suggestions st' = suggestions st @ new"
    "new = [] \<or> (\<exists>s. new = [s] \<and> s_id s = suggestionId \<and> s_expense s = expense)"
    using analyze_appends by blast
  have "getSuggestedRecurring xs st' = getSuggestedRecurring ys st @ map s_expense new"
    by (simp add: getSuggestedRecurring_def a(2))
  moreover have "map s_expense new = [] \<or> map s_expense new = [expense]"
    using a(3) by auto
  ultimately show "\<exists>st' new.
        analyzeExpenseForPatterns now cal patternId suggestionId expense allExpenses st = Inr st'
        \<and> getSuggestedRecurring xs st' = getSuggestedRecurring ys st @ new
        \<and> (new = [] \<or> new = [expense])"
    using a(1) by (intro exI [of _ st'] exI [of _ "map s_expense new"]) simp
qed

end
